theory Spec2Isabelle
  imports Main
begin

section \<open>JavaScript values\<close>

text \<open>
  The component is untyped JavaScript apart from one annotation, so the values it
  handles (the \<open>mrDetail\<close> prop, JSON bodies, caught errors) are modelled by one
  datatype. Numbers are restricted to integers (identifiers) of magnitude below
  \<open>10\<^sup>2\<^sup>1\<close>, which a template literal prints in plain decimal; from there on JavaScript
  prints the exponent form, and such numbers are outside this model. An \<open>Error\<close> object
  is represented by its name. Objects are association lists read with \<open>map_of\<close>.
\<close>

datatype jsval =
    JUndefined
  | JNull
  | JBool bool
  | JNum int
  | JStr string
  | JArr "jsval list"
  | JObj "(string \<times> jsval) list"
  | JError string

text \<open>JavaScript truthiness, as used by \<open>!mrDetail\<close>, \<open>!mrDetail.id\<close>, \<open>if (res)\<close>
  and \<open>if (res.ok)\<close>.\<close>

fun truthy :: "jsval \<Rightarrow> bool" where
  "truthy JUndefined = False"
| "truthy JNull = False"
| "truthy (JBool b) = b"
| "truthy (JNum n) = (n \<noteq> 0)"
| "truthy (JStr s) = (s \<noteq> [])"
| "truthy (JArr xs) = True"
| "truthy (JObj fs) = True"
| "truthy (JError n) = True"

text \<open>
  Property read \<open>v.k\<close>. Reading a property of \<open>undefined\<close> or \<open>null\<close> throws a
  \<open>TypeError\<close> (\<open>Inl\<close>); an object yields the field or \<open>undefined\<close>; any other value
  yields \<open>undefined\<close>. The last clause is right for the four names the component reads
  (\<open>id\<close>, \<open>status\<close>, \<open>data\<close>, \<open>ok\<close>), none of which is defined on a built-in prototype.
\<close>

fun get_prop :: "jsval \<Rightarrow> string \<Rightarrow> jsval + jsval" where
  "get_prop JUndefined k = Inl (JError ''TypeError'')"
| "get_prop JNull k = Inl (JError ''TypeError'')"
| "get_prop (JObj fs) k = Inr (case map_of fs k of None \<Rightarrow> JUndefined | Some v \<Rightarrow> v)"
| "get_prop v k = Inr JUndefined"

text \<open>String conversion of a template-literal hole \<open>${v}\<close>; for a number, the plain
  decimal that JavaScript prints below \<open>10\<^sup>2\<^sup>1\<close>.\<close>

definition digit :: "nat \<Rightarrow> char" where
  "digit d = char_of (d + 48)"

function decimal :: "nat \<Rightarrow> string" where
  "decimal n = (if n div 10 = 0 then [digit n] else decimal (n div 10) @ [digit (n mod 10)])"
  by pat_completeness auto
termination
  by (relation "measure (\<lambda>n. n)") auto

fun join_comma :: "string list \<Rightarrow> string" where
  "join_comma [] = []"
| "join_comma [s] = s"
| "join_comma (s # t # ss) = s @ '','' @ join_comma (t # ss)"

fun to_string :: "jsval \<Rightarrow> string" where
  "to_string JUndefined = ''undefined''"
| "to_string JNull = ''null''"
| "to_string (JBool b) = (if b then ''true'' else ''false'')"
| "to_string (JNum n) =
     (if n < 0 then ''-'' @ decimal (nat (- n)) else decimal (nat n))"
| "to_string (JStr s) = s"
| "to_string (JArr xs) =
     join_comma (map (\<lambda>x. if x = JUndefined \<or> x = JNull then [] else to_string x) xs)"
| "to_string (JObj fs) = ''[object Object]''"
| "to_string (JError n) = n"

section \<open>Sparse arrays\<close>

text \<open>
  \<open>loadings\<close> is a JavaScript array written by index beyond its length. An element is
  \<open>None\<close> where the array has a hole or \<open>undefined\<close> (both read as \<open>undefined\<close>); a read
  past the end gives \<open>undefined\<close> too, and a write past the end extends the array.
\<close>

definition array_get :: "'a option list \<Rightarrow> nat \<Rightarrow> 'a option" where
  "array_get xs i = (if i < length xs then xs ! i else None)"

definition array_set :: "'a option list \<Rightarrow> nat \<Rightarrow> 'a \<Rightarrow> 'a option list" where
  "array_set xs i v =
     (if i < length xs then xs[i := Some v]
      else xs @ replicate (i - length xs) None @ [Some v])"

text \<open>Truthiness of an array element handed to a widget's \<open>loading\<close> prop.\<close>

definition busy :: "bool option \<Rightarrow> bool" where
  "busy f = (f = Some True)"

section \<open>The network and the component's state\<close>

datatype http_method = GET | POST

record request =
  req_method :: http_method
  url :: string

text \<open>
  A \<open>Response\<close> as far as the component looks at it: its \<open>ok\<close> flag and what
  \<open>res.json()\<close> settles to (\<open>Inl\<close> the rejection reason, \<open>Inr\<close> the parsed body).
  \<open>fetch\<close> resolves with a \<open>Response\<close>; \<open>Plain\<close> covers a stubbed \<open>fetch\<close> that
  resolves with some other value, which is what \<open>if (res)\<close> tests for.
\<close>

record response =
  ok :: bool
  json :: "jsval + jsval"

datatype fetched = Response response | Plain jsval

type_synonym outcome = "jsval + fetched"

text \<open>An async function suspended at its \<open>await fetch(...)\<close>, with the locals it
  still needs.\<close>

datatype continuation = AwaitFiles | AwaitMerge nat

text \<open>
  The three \<open>useState\<close> cells, followed by what the component does to its surroundings:
  the \<open>fetch\<close> calls issued, the number of \<open>router.refresh()\<close> calls, the suspended
  async calls, the rejections nobody handled, the last committed \<open>mrDetail\<close> (with the
  heap address that gives an object its identity) and the error of a render that threw.
\<close>

record component =
  filedata :: jsval
  loadings :: "bool option list"
  error :: jsval
  requests :: "request list"
  refreshes :: nat
  awaiting :: "continuation list"
  unhandled :: "jsval list"
  committed :: "(nat \<times> jsval) option"
  crashed :: "jsval option"

definition init :: component where
  "init = \<lparr> filedata = JArr [], loadings = [], error = JNull, requests = [],
            refreshes = 0, awaiting = [], unhandled = [], committed = None,
            crashed = None \<rparr>"

section \<open>The component's functions\<close>

text \<open>
  Both setters pass an updater to \<open>setLoadings\<close>: it copies the previous array and
  assigns at \<open>index\<close>. The callers pass 1 and 2, so the index is a natural number.
\<close>

definition set_to_loading :: "nat \<Rightarrow> component \<Rightarrow> component" where
  "set_to_loading index c = c\<lparr>loadings := array_set (loadings c) index True\<rparr>"

definition cancel_loading :: "nat \<Rightarrow> component \<Rightarrow> component" where
  "cancel_loading index c = c\<lparr>loadings := array_set (loadings c) index False\<rparr>"

text \<open>A call of \<open>fetch\<close> that is awaited: the request goes out and the caller is
  suspended until it settles.\<close>

definition fetch :: "http_method \<Rightarrow> string \<Rightarrow> continuation \<Rightarrow> component \<Rightarrow> component" where
  "fetch m u k c = c\<lparr>requests := requests c @ [\<lparr>req_method = m, url = u\<rparr>],
                     awaiting := awaiting c @ [k]\<rparr>"

fun fetched_truthy :: "fetched \<Rightarrow> bool" where
  "fetched_truthy (Response r) = True"
| "fetched_truthy (Plain v) = truthy v"

fun fetched_ok :: "fetched \<Rightarrow> jsval + jsval" where
  "fetched_ok (Response r) = Inr (JBool (ok r))"
| "fetched_ok (Plain v) = get_prop v ''ok''"

text \<open>\<open>res.json()\<close>: a value that is not a \<open>Response\<close> has no such method.\<close>

fun fetched_json :: "fetched \<Rightarrow> jsval + jsval" where
  "fetched_json (Response r) = json r"
| "fetched_json (Plain v) = Inl (JError ''TypeError'')"

subsection \<open>fetchFileList\<close>

text \<open>
  Up to the \<open>await\<close>: \<open>set_to_loading(2)\<close>, then inside the \<open>try\<close> the URL is built and
  \<open>fetch\<close> is called. A throw while reading \<open>mrDetail.id\<close> is already inside the \<open>try\<close>.
\<close>

definition fetchFileList_start :: "jsval \<Rightarrow> component \<Rightarrow> component" where
  "fetchFileList_start mrDetail c =
     (let c1 = set_to_loading 2 c in
      case get_prop mrDetail ''id'' of
        Inl err \<Rightarrow> cancel_loading 2 (c1\<lparr>error := err\<rparr>)
      | Inr i \<Rightarrow> fetch GET (''/api/mr/'' @ to_string i @ ''/files'') AwaitFiles c1)"

text \<open>The rest of the \<open>try\<close> block: the value handed to \<open>setFileData\<close>, or what was thrown.\<close>

definition fetchFileList_try :: "outcome \<Rightarrow> jsval + jsval" where
  "fetchFileList_try out =
     (case out of
        Inl err \<Rightarrow> Inl err
      | Inr res \<Rightarrow>
          (case fetched_json res of
             Inl err \<Rightarrow> Inl err
           | Inr result \<Rightarrow>
               (case get_prop result ''data'' of
                  Inl err \<Rightarrow> Inl err
                | Inr d \<Rightarrow> get_prop d ''data'')))"

text \<open>From the \<open>await\<close> to the end: \<open>try\<close>, \<open>catch\<close>, \<open>finally\<close>. The second component is
  how the async call completes: \<open>Inr ()\<close> fulfilled, \<open>Inl e\<close> rejected with \<open>e\<close>.\<close>

definition fetchFileList_resume :: "outcome \<Rightarrow> component \<Rightarrow> component \<times> (jsval + unit)" where
  "fetchFileList_resume out c =
     (let (c1, r) = (case fetchFileList_try out of
                       Inr v \<Rightarrow> (c\<lparr>filedata := v\<rparr>, Inr ())
                     | Inl err \<Rightarrow> (c\<lparr>error := err\<rparr>, Inr ()))
      in (cancel_loading 2 c1, r))"

subsection \<open>approve\_mr\<close>

text \<open>Up to the \<open>await\<close>, and from there on. There is no \<open>try\<close>: a rejected \<open>fetch\<close>, or a
  throw while reading \<open>res.ok\<close>, rejects the call.\<close>

definition approve_mr_start :: "nat \<Rightarrow> jsval \<Rightarrow> component \<Rightarrow> component" where
  "approve_mr_start index i c =
     fetch POST (''/api/mr/'' @ to_string i @ ''/merge'') (AwaitMerge index)
       (set_to_loading index c)"

definition approve_mr_resume :: "nat \<Rightarrow> outcome \<Rightarrow> component \<Rightarrow> component \<times> (jsval + unit)" where
  "approve_mr_resume index out c =
     (case out of
        Inl err \<Rightarrow> (c, Inl err)
      | Inr res \<Rightarrow>
          (let c1 = (if fetched_truthy res then cancel_loading index c else c) in
           case fetched_ok res of
             Inl err \<Rightarrow> (c1, Inl err)
           | Inr okv \<Rightarrow>
               (if truthy okv then (c1\<lparr>refreshes := Suc (refreshes c1)\<rparr>, Inr ())
                else (c1, Inr ()))))"

text \<open>One whole call, given what its \<open>fetch\<close> settles to.\<close>

definition approve_mr :: "nat \<Rightarrow> jsval \<Rightarrow> outcome \<Rightarrow> component \<Rightarrow> component \<times> (jsval + unit)" where
  "approve_mr index i out c = approve_mr_resume index out (approve_mr_start index i c)"

subsection \<open>The effect\<close>

text \<open>The function passed to \<open>useEffect\<close>: the guard, then \<open>fetchFileList()\<close>, whose promise
  is dropped.\<close>

definition useEffect_body :: "jsval \<Rightarrow> component \<Rightarrow> jsval + component" where
  "useEffect_body mrDetail c =
     (if \<not> truthy mrDetail then Inr c
      else case get_prop mrDetail ''id'' of
             Inl err \<Rightarrow> Inl err
           | Inr i \<Rightarrow> if \<not> truthy i then Inr c else Inr (fetchFileList_start mrDetail c))"

subsection \<open>Rendering\<close>

text \<open>
  What a render returns, as far as the properties below look at it. The \<open>onClick\<close> closure of the
  button is kept as data: the slot and the \<open>mrDetail\<close> whose \<open>id\<close> it reads when invoked.
\<close>

datatype handler = ApproveMr nat jsval

record button =
  btn_loading :: "bool option"
  on_click :: handler

datatype list_item = ListItem jsval

record view =
  merge_button :: "button option"
  panel_title :: jsval
  list_dataSource :: jsval
  list_loading :: "bool option"
  list_entries :: "list_item list option"

definition renderItem :: "jsval \<Rightarrow> list_item" where
  "renderItem item = ListItem item"

text \<open>
  Modelled from the spec: the list widget comes from the UI toolkit, not from this
  repository. Per the rendering contract, each element of its \<open>dataSource\<close> renders as
  one entry, in array order. \<open>None\<close>: the \<open>dataSource\<close> is not an array, and what the
  widget does then is not modelled.
\<close>

definition List_entries :: "jsval \<Rightarrow> (jsval \<Rightarrow> list_item) \<Rightarrow> list_item list option" where
  "List_entries dataSource f =
     (case dataSource of JArr xs \<Rightarrow> Some (map f xs) | _ \<Rightarrow> None)"

text \<open>The JSX of the \<open>return\<close>, evaluated top to bottom: \<open>mrDetail.status\<close> first, then
  \<open>mrDetail.id\<close> for the title of the inner card. \<open>Inl\<close>: the render threw.\<close>

definition render :: "jsval \<Rightarrow> component \<Rightarrow> jsval + view" where
  "render mrDetail c =
     (case get_prop mrDetail ''status'' of
        Inl err \<Rightarrow> Inl err
      | Inr st \<Rightarrow>
          (case get_prop mrDetail ''id'' of
             Inl err \<Rightarrow> Inl err
           | Inr i \<Rightarrow>
               Inr \<lparr> merge_button =
                       (if st = JStr ''open''
                        then Some \<lparr> btn_loading = array_get (loadings c) 1,
                                    on_click = ApproveMr 1 mrDetail \<rparr>
                        else None),
                     panel_title = i,
                     list_dataSource = filedata c,
                     list_loading = array_get (loadings c) 2,
                     list_entries = List_entries (filedata c) renderItem \<rparr>))"

section \<open>The component over its lifetime\<close>

text \<open>
  What can happen to a mounted component: the parent renders it with a value for
  \<open>mrDetail\<close> (\<open>Supply a v\<close>, where \<open>a\<close> is the heap address of \<open>v\<close> when \<open>v\<close> is an
  object), the user clicks the merge button, or the \<open>fetch\<close> of the \<open>k\<close>-th suspended
  call settles.
\<close>

datatype event = Supply nat jsval | Click | Settle nat outcome

text \<open>\<open>Object.is\<close>, by which \<open>useEffect\<close> compares the dependency \<open>[mrDetail]\<close> of this
  render with that of the previous one: primitives by value, objects by identity.\<close>

fun is_primitive :: "jsval \<Rightarrow> bool" where
  "is_primitive (JArr xs) = False"
| "is_primitive (JObj fs) = False"
| "is_primitive (JError n) = False"
| "is_primitive v = True"

definition Object_is :: "nat \<times> jsval \<Rightarrow> nat \<times> jsval \<Rightarrow> bool" where
  "Object_is p q =
     (if is_primitive (snd p) \<or> is_primitive (snd q) then snd p = snd q
      else fst p = fst q)"

definition drop_nth :: "nat \<Rightarrow> 'a list \<Rightarrow> 'a list" where
  "drop_nth k xs = take k xs @ drop (Suc k) xs"

text \<open>A suspended call runs on from its \<open>await\<close>; a rejection of the call itself has no
  handler (\<open>fetchFileList()\<close> and the \<open>onClick\<close> arrow both drop the promise).\<close>

definition resume :: "continuation \<Rightarrow> outcome \<Rightarrow> component \<Rightarrow> component" where
  "resume k out c =
     (let (c1, r) = (case k of
                       AwaitFiles \<Rightarrow> fetchFileList_resume out c
                     | AwaitMerge index \<Rightarrow> approve_mr_resume index out c)
      in case r of Inl err \<Rightarrow> c1\<lparr>unhandled := unhandled c1 @ [err]\<rparr> | Inr u \<Rightarrow> c1)"

text \<open>
  Modelled from the spec: the button widget comes from the UI toolkit. Per the rendering
  contract, while its slot is busy the control rejects activation, so \<open>onClick\<close> runs
  only when the button is rendered and its \<open>loading\<close> prop is not \<open>true\<close>.
\<close>

definition click :: "component \<Rightarrow> component" where
  "click c =
     (case committed c of
        None \<Rightarrow> c
      | Some p \<Rightarrow>
          (case render (snd p) c of
             Inl err \<Rightarrow> c
           | Inr v \<Rightarrow>
               (case merge_button v of
                  None \<Rightarrow> c
                | Some b \<Rightarrow>
                    if busy (btn_loading b) then c
                    else (case on_click b of
                            ApproveMr index md \<Rightarrow>
                              (case get_prop md ''id'' of
                                 Inl err \<Rightarrow> c\<lparr>unhandled := unhandled c @ [err]\<rparr>
                               | Inr i \<Rightarrow> approve_mr_start index i c)))))"

text \<open>
  One render by the parent: the body of the component runs; if it throws, the
  component is gone. Otherwise the effect runs on the first render and whenever the
  dependency differs from the previous one.
\<close>

definition supply_summary :: "nat \<Rightarrow> jsval \<Rightarrow> component \<Rightarrow> component" where
  "supply_summary a mrDetail c =
     (case render mrDetail c of
        Inl err \<Rightarrow> c\<lparr>crashed := Some err\<rparr>
      | Inr v \<Rightarrow>
          (let rerun = (case committed c of
                          None \<Rightarrow> True
                        | Some p \<Rightarrow> \<not> Object_is p (a, mrDetail));
               c1 = c\<lparr>committed := Some (a, mrDetail)\<rparr>
           in if rerun
              then (case useEffect_body mrDetail c1 of
                      Inl err \<Rightarrow> c1\<lparr>crashed := Some err\<rparr>
                    | Inr c2 \<Rightarrow> c2)
              else c1))"

text \<open>
  One event. Once a render has thrown, the component is unmounted and its state is
  frozen. A \<open>Settle k\<close> takes the \<open>k\<close>-th suspended call off the list and runs it on; it
  does nothing when there is no such call.
\<close>

definition step :: "event \<Rightarrow> component \<Rightarrow> component" where
  "step e c =
     (if crashed c \<noteq> None then c
      else case e of
             Supply a mrDetail \<Rightarrow> supply_summary a mrDetail c
           | Click \<Rightarrow> click c
           | Settle k out \<Rightarrow>
               (if k < length (awaiting c)
                then resume (awaiting c ! k) out (c\<lparr>awaiting := drop_nth k (awaiting c)\<rparr>)
                else c))"

fun run :: "event list \<Rightarrow> component \<Rightarrow> component" where
  "run [] c = c"
| "run (e # es) c = run es (step e c)"

section \<open>Auxiliary notions for the properties\<close>

text \<open>Suspended calls of \<open>approve_mr\<close>.\<close>

fun is_merge :: "continuation \<Rightarrow> bool" where
  "is_merge AwaitFiles = False"
| "is_merge (AwaitMerge i) = True"



text \<open>Slot 1 is busy and no call of \<open>approve_mr\<close> is in flight.\<close>

definition stuck :: "component \<Rightarrow> bool" where
  "stuck c = (busy (array_get (loadings c) 1) \<and> filter is_merge (awaiting c) = [])"

text \<open>At most one call of \<open>approve_mr\<close> is in flight; it is for slot 1, which is busy.\<close>

definition calm :: "component \<Rightarrow> bool" where
  "calm c = (filter is_merge (awaiting c) = []
             \<or> (filter is_merge (awaiting c) = [AwaitMerge 1]
                \<and> busy (array_get (loadings c) 1)))"

section \<open>Properties\<close>

subsection \<open>What each operation leaves alone\<close>

lemma array_get_set: "array_get (array_set xs i v) j = (if i = j then Some v else array_get xs j)"
  by (auto simp: array_get_def array_set_def nth_append)

lemma set_to_loading_fields [simp]:
  "filedata (set_to_loading i c) = filedata c"
  "error (set_to_loading i c) = error c"
  "requests (set_to_loading i c) = requests c"
  "refreshes (set_to_loading i c) = refreshes c"
  "awaiting (set_to_loading i c) = awaiting c"
  "unhandled (set_to_loading i c) = unhandled c"
  "committed (set_to_loading i c) = committed c"
  "crashed (set_to_loading i c) = crashed c"
  "array_get (loadings (set_to_loading i c)) j = (if i = j then Some True else array_get (loadings c) j)"
  by (simp_all add: set_to_loading_def array_get_set)

lemma cancel_loading_fields [simp]:
  "filedata (cancel_loading i c) = filedata c"
  "error (cancel_loading i c) = error c"
  "requests (cancel_loading i c) = requests c"
  "refreshes (cancel_loading i c) = refreshes c"
  "awaiting (cancel_loading i c) = awaiting c"
  "unhandled (cancel_loading i c) = unhandled c"
  "committed (cancel_loading i c) = committed c"
  "crashed (cancel_loading i c) = crashed c"
  "array_get (loadings (cancel_loading i c)) j = (if i = j then Some False else array_get (loadings c) j)"
  by (simp_all add: cancel_loading_def array_get_set)

lemma fetch_fields [simp]:
  "filedata (fetch m u k c) = filedata c"
  "error (fetch m u k c) = error c"
  "loadings (fetch m u k c) = loadings c"
  "requests (fetch m u k c) = requests c @ [\<lparr>req_method = m, url = u\<rparr>]"
  "refreshes (fetch m u k c) = refreshes c"
  "awaiting (fetch m u k c) = awaiting c @ [k]"
  "unhandled (fetch m u k c) = unhandled c"
  "committed (fetch m u k c) = committed c"
  "crashed (fetch m u k c) = crashed c"
  by (simp_all add: fetch_def)

lemma fetchFileList_start_keeps [simp]:
  "filedata (fetchFileList_start md c) = filedata c"
  "refreshes (fetchFileList_start md c) = refreshes c"
  "unhandled (fetchFileList_start md c) = unhandled c"
  "committed (fetchFileList_start md c) = committed c"
  "crashed (fetchFileList_start md c) = crashed c"
  by (simp_all add: fetchFileList_start_def Let_def split: sum.splits)

lemma approve_mr_start_keeps [simp]:
  "filedata (approve_mr_start index i c) = filedata c"
  "error (approve_mr_start index i c) = error c"
  "refreshes (approve_mr_start index i c) = refreshes c"
  "unhandled (approve_mr_start index i c) = unhandled c"
  "committed (approve_mr_start index i c) = committed c"
  "crashed (approve_mr_start index i c) = crashed c"
  by (simp_all add: approve_mr_start_def)

lemma filedata_supply_summary: "filedata (supply_summary a md c) = filedata c"
  by (simp add: supply_summary_def useEffect_body_def Let_def split: sum.splits option.splits)

lemma filedata_resume_rejected: "filedata (resume k (Inl e) c) = filedata c"
  by (cases k) (simp_all add: resume_def fetchFileList_resume_def fetchFileList_try_def
      approve_mr_resume_def)

lemma filedata_step_rejected: "filedata (step (Settle k (Inl e)) c) = filedata c"
  by (simp add: step_def filedata_resume_rejected)

lemma filedata_step_Supply: "filedata (step (Supply a md) c) = filedata c"
  by (simp add: step_def filedata_supply_summary)

subsection \<open>Single calls\<close>

text \<open>
  Claim C1. Whenever the POST of \<open>approve_mr\<close> yields a \<open>Response\<close>, whatever its status:
  the slot's flag is cleared; \<open>router.refresh()\<close> is called exactly once when \<open>res.ok\<close>
  and not at all otherwise; the call completes normally, the error cell and the list of
  unhandled rejections are untouched. The request sent is the POST to
  \<open>/api/mr/{id}/merge\<close>.
\<close>

theorem approve_mr_response:
  "array_get (loadings (fst (approve_mr index i (Inr (Response r)) c))) index = Some False
   \<and> refreshes (fst (approve_mr index i (Inr (Response r)) c))
       = (if ok r then Suc (refreshes c) else refreshes c)
   \<and> snd (approve_mr index i (Inr (Response r)) c) = Inr ()
   \<and> error (fst (approve_mr index i (Inr (Response r)) c)) = error c
   \<and> unhandled (fst (approve_mr index i (Inr (Response r)) c)) = unhandled c
   \<and> requests (fst (approve_mr index i (Inr (Response r)) c))
       = requests c @ [\<lparr>req_method = POST, url = ''/api/mr/'' @ to_string i @ ''/merge''\<rparr>]"
  by (simp add: approve_mr_def approve_mr_resume_def approve_mr_start_def)

text \<open>
  Claim C2. When the \<open>fetch\<close> of the file list rejects with \<open>e\<close>: \<open>e\<close> is stored in the
  error cell, the file list is what it was, slot 2 is cleared by the \<open>finally\<close> block,
  and the async call still fulfils, so nothing is left unhandled and the component does
  not crash. On the first load the list is therefore still empty.
\<close>

theorem fetchFileList_rejected:
  "error (fst (fetchFileList_resume (Inl e) c)) = e
   \<and> filedata (fst (fetchFileList_resume (Inl e) c)) = filedata c
   \<and> array_get (loadings (fst (fetchFileList_resume (Inl e) c))) 2 = Some False
   \<and> snd (fetchFileList_resume (Inl e) c) = Inr ()
   \<and> unhandled (resume AwaitFiles (Inl e) c) = unhandled c
   \<and> crashed (resume AwaitFiles (Inl e) c) = crashed c
   \<and> filedata (run [Supply a mrDetail, Settle 0 (Inl e)] init) = JArr []"
proof -
  have "filedata (run [Supply a mrDetail, Settle 0 (Inl e)] init) = filedata init"
    by (simp add: filedata_step_rejected filedata_step_Supply)
  then show ?thesis
    by (simp add: fetchFileList_resume_def fetchFileList_try_def resume_def init_def)
qed

subsection \<open>Calls of approve\_mr in flight\<close>

lemma filter_drop_nth_other:
  assumes "k < length xs" "\<not> P (xs ! k)"
  shows "filter P (drop_nth k xs) = filter P xs"
proof -
  have "filter P xs = filter P (take k xs @ xs ! k # drop (Suc k) xs)"
    using assms(1) by (simp add: id_take_nth_drop [symmetric])
  with assms(2) show ?thesis by (simp add: drop_nth_def)
qed

lemma filter_drop_nth_only:
  assumes "k < length xs" "P (xs ! k)" "length (filter P xs) \<le> 1"
  shows "filter P (drop_nth k xs) = []"
proof -
  have "filter P xs = filter P (take k xs @ xs ! k # drop (Suc k) xs)"
    using assms(1) by (simp add: id_take_nth_drop [symmetric])
  with assms(2,3) show ?thesis by (simp add: drop_nth_def)
qed

text \<open>Slots other than 2 and the merge calls in flight are untouched by the effect.\<close>

lemma fetchFileList_start_slot:
  "j \<noteq> 2 \<Longrightarrow> array_get (loadings (fetchFileList_start md c)) j = array_get (loadings c) j"
  by (simp add: fetchFileList_start_def Let_def split: sum.splits)

lemma fetchFileList_start_merges:
  "filter is_merge (awaiting (fetchFileList_start md c)) = filter is_merge (awaiting c)"
  by (simp add: fetchFileList_start_def Let_def split: sum.splits)

lemma supply_summary_slot:
  "j \<noteq> 2 \<Longrightarrow> array_get (loadings (supply_summary a md c)) j = array_get (loadings c) j"
  by (simp add: supply_summary_def useEffect_body_def Let_def fetchFileList_start_slot
      split: sum.splits option.splits)

lemma supply_summary_merges:
  "filter is_merge (awaiting (supply_summary a md c)) = filter is_merge (awaiting c)"
  by (simp add: supply_summary_def useEffect_body_def Let_def fetchFileList_start_merges
      split: sum.splits option.splits)

lemma click_busy:
  "busy (array_get (loadings c) 1) \<Longrightarrow> click c = c"
  by (simp add: click_def render_def split: sum.splits option.splits)

lemma all_files:
  assumes "filter is_merge xs = []" "k < length xs"
  shows "xs ! k = AwaitFiles"
proof -
  have "\<not> is_merge (xs ! k)"
    using assms by (metis filter_empty_conv nth_mem)
  then show ?thesis by (cases "xs ! k") simp_all
qed

lemma resume_files_slot:
  "j \<noteq> 2 \<Longrightarrow> array_get (loadings (resume AwaitFiles out c)) j = array_get (loadings c) j"
  by (simp add: resume_def fetchFileList_resume_def split: sum.splits)

lemma resume_files_awaiting:
  "awaiting (resume AwaitFiles out c) = awaiting c"
  by (simp add: resume_def fetchFileList_resume_def split: sum.splits)

lemma stuck_step: "stuck c \<Longrightarrow> stuck (step e c)"
proof (cases e)
  case (Supply a md)
  assume "stuck c"
  then show ?thesis
    by (simp add: Supply step_def stuck_def supply_summary_slot supply_summary_merges)
next
  case Click
  assume "stuck c"
  then show ?thesis by (simp add: Click step_def stuck_def click_busy)
next
  case (Settle k out)
  assume s: "stuck c"
  show ?thesis
  proof (cases "crashed c = None \<and> k < length (awaiting c)")
    case False
    with s show ?thesis by (auto simp: Settle step_def)
  next
    case True
    with s have f: "awaiting c ! k = AwaitFiles"
      by (simp add: stuck_def all_files)
    with s True show ?thesis
      by (simp add: Settle step_def stuck_def resume_files_slot resume_files_awaiting
          filter_drop_nth_other)
  qed
qed

lemma stuck_run: "stuck c \<Longrightarrow> stuck (run es c)"
  by (induction es arbitrary: c) (simp_all add: stuck_step)

lemma calm_init: "calm init"
  by (simp add: calm_def init_def)

lemma resume_awaiting: "awaiting (resume k out c) = awaiting c"
  by (cases k)
    (simp_all add: resume_def fetchFileList_resume_def approve_mr_resume_def Let_def
      split: sum.splits)

lemma click_cases:
  "click c = c \<or> (\<exists>e. click c = c\<lparr>unhandled := unhandled c @ [e]\<rparr>)
   \<or> (\<exists>i. \<not> busy (array_get (loadings c) 1) \<and> click c = approve_mr_start 1 i c)"
  by (auto simp: click_def render_def split: sum.splits option.splits)

lemma approve_mr_start_awaiting:
  "awaiting (approve_mr_start index i c) = awaiting c @ [AwaitMerge index]"
  by (simp add: approve_mr_start_def)

lemma approve_mr_start_slot:
  "array_get (loadings (approve_mr_start index i c)) j
     = (if index = j then Some True else array_get (loadings c) j)"
  by (simp add: approve_mr_start_def)

lemma calm_click: "calm c \<Longrightarrow> calm (click c)"
  using click_cases [of c]
  by (auto simp: calm_def approve_mr_start_awaiting approve_mr_start_slot busy_def)


lemma only_merge:
  assumes "filter is_merge xs = [AwaitMerge 1]" "k < length xs" "xs ! k = AwaitMerge i"
  shows "i = 1"
proof -
  have "xs ! k \<in> set xs" using assms(2) by simp
  then have "xs ! k \<in> set (filter is_merge xs)"
    using assms(3) by simp
  with assms(1,3) show ?thesis by simp
qed

lemma calm_settle:
  assumes "calm c" "k < length (awaiting c)"
  shows "calm (resume (awaiting c ! k) out (c\<lparr>awaiting := drop_nth k (awaiting c)\<rparr>))"
proof (cases "awaiting c ! k")
  case AwaitFiles
  with assms show ?thesis
    by (simp add: calm_def resume_awaiting resume_files_slot filter_drop_nth_other)
next
  case (AwaitMerge i)
  then have "is_merge (awaiting c ! k)" by simp
  then have ne: "filter is_merge (awaiting c) \<noteq> []"
    using assms(2) by (metis filter_empty_conv nth_mem)
  with assms(1) have one: "filter is_merge (awaiting c) = [AwaitMerge 1]"
    by (auto simp: calm_def)
  then have "filter is_merge (drop_nth k (awaiting c)) = []"
    using assms(2) AwaitMerge by (simp add: filter_drop_nth_only)
  then show ?thesis
    by (simp add: calm_def resume_awaiting)
qed

lemma calm_step: "calm c \<Longrightarrow> calm (step e c)"
proof (cases e)
  case (Supply a md)
  assume "calm c"
  then show ?thesis
    by (simp add: Supply step_def calm_def supply_summary_slot supply_summary_merges)
next
  case Click
  assume "calm c"
  then show ?thesis by (simp add: Click step_def calm_click)
next
  case (Settle k out)
  assume "calm c"
  then show ?thesis by (simp add: Settle step_def calm_settle)
qed

lemma calm_run: "calm c \<Longrightarrow> calm (run es c)"
  by (induction es arbitrary: c) (simp_all add: calm_step)

lemma unhandled_resume: "set (unhandled c) \<subseteq> set (unhandled (resume k out c))"
  by (cases k)
    (auto simp: resume_def fetchFileList_resume_def approve_mr_resume_def Let_def
      split: sum.splits)

lemma unhandled_click: "set (unhandled c) \<subseteq> set (unhandled (click c))"
  using click_cases [of c] by auto

lemma unhandled_supply_summary: "unhandled (supply_summary a md c) = unhandled c"
  by (simp add: supply_summary_def useEffect_body_def Let_def split: sum.splits option.splits)

lemma unhandled_step: "set (unhandled c) \<subseteq> set (unhandled (step e c))"
proof (cases e)
  case (Settle k out)
  then show ?thesis
    using unhandled_resume [of "c\<lparr>awaiting := drop_nth k (awaiting c)\<rparr>" "awaiting c ! k" out]
    by (simp add: step_def)
qed (simp_all add: step_def unhandled_click unhandled_supply_summary)

lemma unhandled_run: "set (unhandled c) \<subseteq> set (unhandled (run es c))"
proof (induction es arbitrary: c)
  case (Cons e es)
  show ?case
    using unhandled_step [of c e] Cons [of "step e c"] by auto
qed simp

text \<open>
  Claim C4. When the POST of a call \<open>approve_mr(index, id)\<close> rejects with \<open>e\<close>: the call
  changes nothing after the \<open>await\<close> and rejects with \<open>e\<close>, so the slot it set busy stays
  busy. Over the lifetime of the component: if that call is in flight in a reachable
  state and its \<open>fetch\<close> rejects, then after any further events the slot is still busy
  and \<open>e\<close> is among the unhandled rejections.
\<close>

theorem approve_mr_rejected_stays_busy:
  assumes "crashed (run evs0 init) = None"
    and "k < length (awaiting (run evs0 init))"
    and "awaiting (run evs0 init) ! k = AwaitMerge index"
  shows "approve_mr_resume index (Inl e) c = (c, Inl e)
     \<and> busy (array_get (loadings (fst (approve_mr index i (Inl e) c))) index)
     \<and> snd (approve_mr index i (Inl e) c) = Inl e
     \<and> busy (array_get (loadings (run (Settle k (Inl e) # evs) (run evs0 init))) index)
     \<and> e \<in> set (unhandled (run (Settle k (Inl e) # evs) (run evs0 init)))"
proof -
  let ?c = "run evs0 init"
  let ?c' = "step (Settle k (Inl e)) ?c"
  have calm: "calm ?c" by (simp add: calm_run calm_init)
  have "is_merge (awaiting ?c ! k)" using assms(3) by simp
  then have "filter is_merge (awaiting ?c) \<noteq> []"
    using assms(2) by (metis filter_empty_conv nth_mem)
  with calm have one: "filter is_merge (awaiting ?c) = [AwaitMerge 1]"
    and b: "busy (array_get (loadings ?c) 1)"
    by (auto simp: calm_def)
  have idx: "index = 1" using one assms(2,3) by (rule only_merge)
  have c': "?c' = ?c\<lparr>awaiting := drop_nth k (awaiting ?c), unhandled := unhandled ?c @ [e]\<rparr>"
    using assms by (simp add: step_def resume_def approve_mr_resume_def)
  have "filter is_merge (drop_nth k (awaiting ?c)) = []"
    using assms(2,3) one by (simp add: filter_drop_nth_only)
  with b have "stuck ?c'" by (simp add: c' stuck_def)
  then have "stuck (run evs ?c')" by (rule stuck_run)
  then have 1: "busy (array_get (loadings (run (Settle k (Inl e) # evs) ?c)) index)"
    by (simp add: stuck_def idx)
  have "e \<in> set (unhandled ?c')" by (simp add: c')
  then have 2: "e \<in> set (unhandled (run (Settle k (Inl e) # evs) ?c))"
    using unhandled_run [of ?c' evs] by auto
  have 3: "approve_mr_resume index (Inl e) c = (c, Inl e)"
    by (simp add: approve_mr_resume_def)
  have 4: "busy (array_get (loadings (fst (approve_mr index i (Inl e) c))) index)
     \<and> snd (approve_mr index i (Inl e) c) = Inl e"
    by (simp add: approve_mr_def approve_mr_resume_def approve_mr_start_slot busy_def)
  from 1 2 3 4 show ?thesis by simp
qed

theorem approve_mr_rejected_stays_busy_witness:
  "crashed (run [Supply 1 (JObj [(''id'', JNum 7), (''status'', JStr ''open'')]), Click] init) = None
   \<and> 1 < length (awaiting (run [Supply 1 (JObj [(''id'', JNum 7), (''status'', JStr ''open'')]), Click] init))
   \<and> awaiting (run [Supply 1 (JObj [(''id'', JNum 7), (''status'', JStr ''open'')]), Click] init) ! 1
       = AwaitMerge 1
   \<and> busy (array_get (loadings (run (Settle 1 (Inl (JError ''offline'')) # [Click, Settle 0 (Inl JNull)])
        (run [Supply 1 (JObj [(''id'', JNum 7), (''status'', JStr ''open'')]), Click] init))) 1)
   \<and> JError ''offline'' \<in> set (unhandled (run (Settle 1 (Inl (JError ''offline'')) # [Click, Settle 0 (Inl JNull)])
        (run [Supply 1 (JObj [(''id'', JNum 7), (''status'', JStr ''open'')]), Click] init)))"
proof -
  let ?c = "run [Supply 1 (JObj [(''id'', JNum 7), (''status'', JStr ''open'')]), Click] init"
  have h1: "crashed ?c = None" by code_simp
  have h2: "1 < length (awaiting ?c)" by code_simp
  have h3: "awaiting ?c ! 1 = AwaitMerge 1" by code_simp
  show ?thesis
    using approve_mr_rejected_stays_busy [OF h1 h2 h3, of "JError ''offline''" init JNull "[Click, Settle 0 (Inl JNull)]"] h1 h2 h3
    by simp
qed

subsection \<open>Rendering and the guard of the effect\<close>

text \<open>
  Claim C6. For every summary and every state of the component, a render shows the merge
  button exactly when \<open>mrDetail.status\<close> is the string \<open>open\<close>.
\<close>

theorem merge_button_iff_open:
  "(\<exists>v b. render mrDetail c = Inr v \<and> merge_button v = Some b)
     = (get_prop mrDetail ''status'' = Inr (JStr ''open''))"
proof (cases "mrDetail = JUndefined \<or> mrDetail = JNull")
  case True
  then show ?thesis by (auto simp: render_def)
next
  case False
  then obtain i where "get_prop mrDetail ''id'' = Inr i"
    by (cases mrDetail) simp_all
  then show ?thesis
    by (auto simp: render_def split: sum.splits)
qed

text \<open>
  Claim C7. When \<open>mrDetail\<close> is absent (\<open>undefined\<close> or \<open>null\<close>) or its \<open>id\<close> is
  \<open>undefined\<close> or \<open>null\<close>, the effect returns without calling \<open>fetchFileList\<close>, and a
  render by the parent issues no request and suspends no call.
\<close>

theorem no_fetch_without_identifier:
  assumes "mrDetail = JUndefined \<or> mrDetail = JNull
           \<or> get_prop mrDetail ''id'' = Inr JUndefined \<or> get_prop mrDetail ''id'' = Inr JNull"
  shows "useEffect_body mrDetail c = Inr c
         \<and> requests (step (Supply a mrDetail) c) = requests c
         \<and> awaiting (step (Supply a mrDetail) c) = awaiting c
         \<and> requests (run [Supply a mrDetail] init) = []"
proof -
  have e: "useEffect_body mrDetail c' = Inr c'" for c'
    using assms by (auto simp: useEffect_body_def)
  have s: "requests (step (Supply a mrDetail) c') = requests c'
           \<and> awaiting (step (Supply a mrDetail) c') = awaiting c'" for c'
    by (simp add: step_def supply_summary_def e Let_def split: sum.splits option.splits)
  from e s [of c] s [of init] show ?thesis by (simp add: init_def)
qed

text \<open>The four cases of the hypothesis of C7, each at a concrete summary.\<close>

theorem no_fetch_without_identifier_witness:
  "useEffect_body JUndefined init = Inr init
   \<and> requests (step (Supply 0 JUndefined) init) = requests init
   \<and> requests (run [Supply 0 JNull] init) = []
   \<and> useEffect_body (JObj [(''status'', JStr ''open'')]) init = Inr init
   \<and> requests (run [Supply 0 (JObj [(''status'', JStr ''open''), (''id'', JNull)])] init) = []"
  using no_fetch_without_identifier [of JUndefined init 0]
    no_fetch_without_identifier [of JNull init 0]
    no_fetch_without_identifier [of "JObj [(''status'', JStr ''open'')]" init 0]
    no_fetch_without_identifier [of "JObj [(''status'', JStr ''open''), (''id'', JNull)]" init 0]
  by (simp add: init_def)

text \<open>
  Claim C9, at the input where the code departs from it. With an absent summary the
  render reads \<open>mrDetail.status\<close> of \<open>undefined\<close> (or \<open>null\<close>) and throws a \<open>TypeError\<close>:
  nothing is rendered and the component is gone, although the guard of the effect
  provides for this very input.
\<close>

theorem render_absent_summary_throws:
  "render JUndefined c = Inl (JError ''TypeError'')
   \<and> render JNull c = Inl (JError ''TypeError'')
   \<and> crashed (run [Supply a JUndefined] init) = Some (JError ''TypeError'')
   \<and> useEffect_body JUndefined c = Inr c"
  by (simp add: render_def step_def supply_summary_def init_def useEffect_body_def)

text \<open>For every summary that is present the render does succeed, and the inner card is
  titled with \<open>mrDetail.id\<close> (also when that is \<open>undefined\<close>).\<close>

lemma render_present_summary:
  assumes "mrDetail \<noteq> JUndefined" "mrDetail \<noteq> JNull"
  shows "\<exists>v. render mrDetail c = Inr v \<and> get_prop mrDetail ''id'' = Inr (panel_title v)"
  using assms by (cases mrDetail) (simp_all add: render_def)

subsection \<open>The body of the files response\<close>

lemma fetchFileList_resume_value:
  assumes "fetchFileList_try out = Inr v"
  shows "fetchFileList_resume out c = (cancel_loading 2 (c\<lparr>filedata := v\<rparr>), Inr ())"
  using assms by (simp add: fetchFileList_resume_def)

lemma fetchFileList_resume_thrown:
  assumes "fetchFileList_try out = Inl err"
  shows "fetchFileList_resume out c = (cancel_loading 2 (c\<lparr>error := err\<rparr>), Inr ())"
  using assms by (simp add: fetchFileList_resume_def)

lemma list_entries_render:
  "render mrDetail c = Inr v \<Longrightarrow>
   list_dataSource v = filedata c \<and> list_entries v = List_entries (filedata c) renderItem"
  by (auto simp: render_def split: sum.splits)

text \<open>
  Claim C5. When the GET resolves with a response whose JSON body has the array \<open>xs\<close>
  at \<open>data.data\<close>, the file list becomes \<open>xs\<close> as a whole; any render of the component
  then hands \<open>xs\<close> to the list as its \<open>dataSource\<close>, and the list shows exactly one entry
  per element of \<open>xs\<close>, in the order of \<open>xs\<close>.
\<close>

theorem file_list_replaced_and_listed:
  assumes "json r = Inr body"
    and "get_prop body ''data'' = Inr d"
    and "get_prop d ''data'' = Inr (JArr xs)"
    and "render mrDetail (fst (fetchFileList_resume (Inr (Response r)) c)) = Inr v"
  shows "filedata (fst (fetchFileList_resume (Inr (Response r)) c)) = JArr xs
         \<and> list_dataSource v = JArr xs
         \<and> list_entries v = Some (map ListItem xs)"
proof -
  have "fetchFileList_try (Inr (Response r)) = Inr (JArr xs)"
    using assms(1-3) by (simp add: fetchFileList_try_def)
  then have f: "filedata (fst (fetchFileList_resume (Inr (Response r)) c)) = JArr xs"
    by (simp add: fetchFileList_resume_value)
  have "list_dataSource v = JArr xs \<and> list_entries v = List_entries (JArr xs) renderItem"
    using list_entries_render [OF assms(4)] f by simp
  then have "list_dataSource v = JArr xs \<and> list_entries v = Some (map ListItem xs)"
    by (simp add: List_entries_def renderItem_def [abs_def])
  with f show ?thesis by simp
qed

text \<open>The example of the specification: \<open>{data: {data: ["a.txt", "b.txt"]}}\<close> replaces
  a previous list and is shown as two entries in that order.\<close>

theorem file_list_replaced_and_listed_witness:
  "render (JObj [(''id'', JNum 7), (''status'', JStr ''open'')])
     (fst (fetchFileList_resume
        (Inr (Response \<lparr>ok = True,
           json = Inr (JObj [(''data'', JObj [(''data'', JArr [JStr ''a.txt'', JStr ''b.txt''])])])\<rparr>))
        (init\<lparr>filedata := JArr [JStr ''old.txt'']\<rparr>)))
   = Inr \<lparr> merge_button = Some \<lparr>btn_loading = None,
              on_click = ApproveMr 1 (JObj [(''id'', JNum 7), (''status'', JStr ''open'')])\<rparr>,
           panel_title = JNum 7,
           list_dataSource = JArr [JStr ''a.txt'', JStr ''b.txt''], list_loading = Some False,
           list_entries = Some [ListItem (JStr ''a.txt''), ListItem (JStr ''b.txt'')] \<rparr>
   \<and> filedata (fst (fetchFileList_resume
        (Inr (Response \<lparr>ok = True,
           json = Inr (JObj [(''data'', JObj [(''data'', JArr [JStr ''a.txt'', JStr ''b.txt''])])])\<rparr>))
        (init\<lparr>filedata := JArr [JStr ''old.txt'']\<rparr>)))
     = JArr [JStr ''a.txt'', JStr ''b.txt'']"
proof -
  let ?r = "\<lparr>ok = True,
           json = Inr (JObj [(''data'', JObj [(''data'', JArr [JStr ''a.txt'', JStr ''b.txt''])])])\<rparr>"
  let ?c = "init\<lparr>filedata := JArr [JStr ''old.txt'']\<rparr>"
  let ?md = "JObj [(''id'', JNum 7), (''status'', JStr ''open'')]"
  let ?v = "\<lparr> merge_button = Some \<lparr>btn_loading = None, on_click = ApproveMr 1 ?md\<rparr>,
           panel_title = JNum 7,
           list_dataSource = JArr [JStr ''a.txt'', JStr ''b.txt''], list_loading = Some False,
           list_entries = Some [ListItem (JStr ''a.txt''), ListItem (JStr ''b.txt'')] \<rparr>"
  have h1: "json ?r = Inr (JObj [(''data'', JObj [(''data'', JArr [JStr ''a.txt'', JStr ''b.txt''])])])"
    by simp
  have h2: "get_prop (JObj [(''data'', JObj [(''data'', JArr [JStr ''a.txt'', JStr ''b.txt''])])]) ''data''
      = Inr (JObj [(''data'', JArr [JStr ''a.txt'', JStr ''b.txt''])])"
    by simp
  have h3: "get_prop (JObj [(''data'', JArr [JStr ''a.txt'', JStr ''b.txt''])]) ''data''
      = Inr (JArr [JStr ''a.txt'', JStr ''b.txt''])"
    by simp
  have h4: "render ?md (fst (fetchFileList_resume (Inr (Response ?r)) ?c)) = Inr ?v"
    by code_simp
  show ?thesis
    using file_list_replaced_and_listed [OF h1 h2 h3 h4] h4 by simp
qed

text \<open>
  Claim C10 as stated fails for the body \<open>{data: {}}\<close>: it lacks the nested
  \<open>data.data\<close>, yet nothing is thrown, the error cell keeps its value and the file list
  is replaced by \<open>undefined\<close>.
\<close>

theorem body_without_nested_data_counterexample:
  "fetchFileList_try (Inr (Response \<lparr>ok = True, json = Inr (JObj [(''data'', JObj [])])\<rparr>))
     = Inr JUndefined
   \<and> error (fst (fetchFileList_resume
        (Inr (Response \<lparr>ok = True, json = Inr (JObj [(''data'', JObj [])])\<rparr>)) init)) = error init
   \<and> filedata (fst (fetchFileList_resume
        (Inr (Response \<lparr>ok = True, json = Inr (JObj [(''data'', JObj [])])\<rparr>)) init)) = JUndefined
   \<and> filedata (fst (fetchFileList_resume
        (Inr (Response \<lparr>ok = True, json = Inr (JObj [(''data'', JObj [])])\<rparr>)) init)) \<noteq> filedata init"
  by (simp add: fetchFileList_resume_def fetchFileList_try_def init_def)

text \<open>
  Claim C10, amended. If the GET resolves and \<open>res.json()\<close> rejects (the body is not
  valid JSON), or the parsed body is \<open>null\<close>, or \<open>body.data\<close> is \<open>undefined\<close> or \<open>null\<close>,
  this is handled exactly like a failed fetch: the thrown value is stored in the error
  cell, the file list is unchanged, slot 2 is cleared, and the call fulfils, so nothing
  escapes the component.
\<close>

theorem unreadable_body_as_failure:
  assumes "json r = Inl err
           \<or> (err = JError ''TypeError''
              \<and> (json r = Inr JNull
                 \<or> (\<exists>body. json r = Inr body
                      \<and> (get_prop body ''data'' = Inr JUndefined
                         \<or> get_prop body ''data'' = Inr JNull))))"
  shows "error (fst (fetchFileList_resume (Inr (Response r)) c)) = err
         \<and> filedata (fst (fetchFileList_resume (Inr (Response r)) c)) = filedata c
         \<and> array_get (loadings (fst (fetchFileList_resume (Inr (Response r)) c))) 2 = Some False
         \<and> snd (fetchFileList_resume (Inr (Response r)) c) = Inr ()
         \<and> unhandled (resume AwaitFiles (Inr (Response r)) c) = unhandled c
         \<and> crashed (resume AwaitFiles (Inr (Response r)) c) = crashed c"
proof -
  have "fetchFileList_try (Inr (Response r)) = Inl err"
    using assms by (auto simp: fetchFileList_try_def)
  then have "fetchFileList_resume (Inr (Response r)) c
      = (cancel_loading 2 (c\<lparr>error := err\<rparr>), Inr ())"
    by (rule fetchFileList_resume_thrown)
  then show ?thesis by (simp add: resume_def)
qed

text \<open>An invalid body, a body without \<open>data\<close>, and the body \<open>null\<close>.\<close>

theorem unreadable_body_as_failure_witness:
  "error (fst (fetchFileList_resume
      (Inr (Response \<lparr>ok = True, json = Inl (JError ''SyntaxError'')\<rparr>)) init)) = JError ''SyntaxError''
   \<and> filedata (fst (fetchFileList_resume
      (Inr (Response \<lparr>ok = True, json = Inl (JError ''SyntaxError'')\<rparr>)) init)) = JArr []
   \<and> error (fst (fetchFileList_resume
      (Inr (Response \<lparr>ok = True, json = Inr (JObj [(''message'', JStr ''no'')])\<rparr>)) init))
      = JError ''TypeError''
   \<and> array_get (loadings (fst (fetchFileList_resume
      (Inr (Response \<lparr>ok = True, json = Inr (JObj [(''message'', JStr ''no'')])\<rparr>)) init))) 2
      = Some False
   \<and> snd (fetchFileList_resume
      (Inr (Response \<lparr>ok = False, json = Inr JNull\<rparr>)) init) = Inr ()"
proof -
  have a: "json \<lparr>ok = True, json = Inl (JError ''SyntaxError'')\<rparr> = Inl (JError ''SyntaxError'')
     \<or> (JError ''SyntaxError'' = JError ''TypeError''
        \<and> (json \<lparr>ok = True, json = Inl (JError ''SyntaxError'')\<rparr> = Inr JNull
           \<or> (\<exists>body. json \<lparr>ok = True, json = Inl (JError ''SyntaxError'')\<rparr> = Inr body
                \<and> (get_prop body ''data'' = Inr JUndefined
                   \<or> get_prop body ''data'' = Inr JNull))))"
    by simp
  have b: "json \<lparr>ok = True, json = Inr (JObj [(''message'', JStr ''no'')])\<rparr> = Inl (JError ''TypeError'')
     \<or> (JError ''TypeError'' = JError ''TypeError''
        \<and> (json \<lparr>ok = True, json = Inr (JObj [(''message'', JStr ''no'')])\<rparr> = Inr JNull
           \<or> (\<exists>body. json \<lparr>ok = True, json = Inr (JObj [(''message'', JStr ''no'')])\<rparr> = Inr body
                \<and> (get_prop body ''data'' = Inr JUndefined
                   \<or> get_prop body ''data'' = Inr JNull))))"
    by simp
  have c: "json \<lparr>ok = False, json = Inr JNull\<rparr> = Inl (JError ''TypeError'')
     \<or> (JError ''TypeError'' = JError ''TypeError''
        \<and> (json \<lparr>ok = False, json = Inr JNull\<rparr> = Inr JNull
           \<or> (\<exists>body. json \<lparr>ok = False, json = Inr JNull\<rparr> = Inr body
                \<and> (get_prop body ''data'' = Inr JUndefined
                   \<or> get_prop body ''data'' = Inr JNull))))"
    by simp
  show ?thesis
    using unreadable_body_as_failure [OF a, of init] unreadable_body_as_failure [OF b, of init]
      unreadable_body_as_failure [OF c, of init]
    by (simp add: init_def)
qed

subsection \<open>Slot 2 over the lifetime\<close>










subsection \<open>Re-running the effect\<close>

text \<open>
  Claim C8 as stated fails: rendering twice with the same object (same address) runs
  the effect once, since the dependency \<open>[mrDetail]\<close> is unchanged under \<open>Object.is\<close>.
\<close>

theorem same_object_resupplied_counterexample:
  "length (requests (run [Supply 1 (JObj [(''id'', JNum 7), (''status'', JStr ''open'')]),
                          Supply 1 (JObj [(''id'', JNum 7), (''status'', JStr ''open'')])] init)) = 1
   \<and> length (requests (run [Supply 1 (JObj [(''id'', JNum 7), (''status'', JStr ''open'')]),
                          Supply 1 (JObj [(''id'', JNum 7), (''status'', JStr ''open'')])] init)) \<noteq> 2"
  by code_simp

lemma identified_is_object:
  assumes "get_prop mrDetail ''id'' = Inr i" "truthy i"
  shows "\<exists>fs. mrDetail = JObj fs"
  using assms by (cases mrDetail) auto

lemma supply_identified:
  assumes "get_prop mrDetail ''id'' = Inr i" and "truthy i"
  shows "supply_summary a mrDetail c
     = (if (case committed c of None \<Rightarrow> False | Some p \<Rightarrow> Object_is p (a, mrDetail))
        then c\<lparr>committed := Some (a, mrDetail)\<rparr>
        else fetch GET (''/api/mr/'' @ to_string i @ ''/files'') AwaitFiles
               (set_to_loading 2 (c\<lparr>committed := Some (a, mrDetail)\<rparr>)))"
proof -
  obtain fs where md: "mrDetail = JObj fs"
    using identified_is_object [OF assms] by blast
  have r: "\<exists>v. render mrDetail c = Inr v"
    by (simp add: md render_def)
  have e: "useEffect_body mrDetail c'
      = Inr (fetch GET (''/api/mr/'' @ to_string i @ ''/files'') AwaitFiles (set_to_loading 2 c'))" for c'
    using assms by (simp add: md useEffect_body_def fetchFileList_start_def)
  from r show ?thesis
    by (auto simp: supply_summary_def e Let_def split: option.splits)
qed

text \<open>
  Claim C8, amended. From any state of the mounted component, a render by the parent
  with a summary whose identifier is truthy issues the file-list fetch when no summary
  was committed before or when the new value is a different object from the previous one
  under \<open>Object.is\<close>, whatever the contents of either; it issues none when it is the very
  same object. Two objects with the same contents at different addresses are different
  objects: there is no memoisation by identifier or content. So the same object supplied
  twice to a fresh component is fetched once, and a distinct object with the same
  contents twice.
\<close>

theorem refetch_by_object_identity:
  assumes "crashed c = None" and "get_prop mrDetail ''id'' = Inr i" and "truthy i"
  shows "requests (step (Supply a mrDetail) c)
           = (if (case committed c of None \<Rightarrow> False | Some p \<Rightarrow> Object_is p (a, mrDetail))
              then requests c
              else requests c @ [\<lparr>req_method = GET, url = ''/api/mr/'' @ to_string i @ ''/files''\<rparr>])
         \<and> committed (step (Supply a mrDetail) c) = Some (a, mrDetail)
         \<and> crashed (step (Supply a mrDetail) c) = None
         \<and> Object_is (b, mrDetail) (a, mrDetail) = (b = a)
         \<and> length (requests (run [Supply a mrDetail, Supply b mrDetail] init))
             = (if a = b then 1 else 2)"
proof -
  obtain fs where md: "mrDetail = JObj fs"
    using identified_is_object [OF assms(2,3)] by blast
  have o: "Object_is (x, mrDetail) (y, mrDetail) = (x = y)" for x y
    by (simp add: md Object_is_def)
  have s: "step (Supply x mrDetail) c' = supply_summary x mrDetail c'" if "crashed c' = None" for x c'
    using that by (simp add: step_def)
  have g: "requests (step (Supply x mrDetail) c')
           = (if (case committed c' of None \<Rightarrow> False | Some p \<Rightarrow> Object_is p (x, mrDetail))
              then requests c'
              else requests c' @ [\<lparr>req_method = GET, url = ''/api/mr/'' @ to_string i @ ''/files''\<rparr>])
         \<and> committed (step (Supply x mrDetail) c') = Some (x, mrDetail)
         \<and> crashed (step (Supply x mrDetail) c') = None" if "crashed c' = None" for x c'
    using that by (simp add: s supply_identified [OF assms(2,3)])
  have i0: "crashed init = None" "committed init = None" "requests init = []"
    by (simp_all add: init_def)
  let ?c1 = "step (Supply a mrDetail) init"
  have 1: "length (requests ?c1) = 1" "committed ?c1 = Some (a, mrDetail)" "crashed ?c1 = None"
    using g [OF i0(1), of a] by (simp_all add: i0)
  have 2: "length (requests (step (Supply b mrDetail) ?c1)) = (if a = b then 1 else 2)"
    using g [OF 1(3), of b] 1 by (auto simp: o)
  from g [OF assms(1), of a] o [of b a] 2 show ?thesis by simp
qed

text \<open>After a first summary and a click: another summary is fetched, the same object is
  not; and the two runs of a fresh component.\<close>

theorem refetch_by_object_identity_witness:
  "crashed (run [Supply 3 (JObj [(''id'', JNum 7), (''status'', JStr ''open'')]), Click] init) = None
   \<and> requests (step (Supply 5 (JObj [(''id'', JStr ''x9''), (''status'', JStr ''merged'')]))
        (run [Supply 3 (JObj [(''id'', JNum 7), (''status'', JStr ''open'')]), Click] init))
      = [\<lparr>req_method = GET, url = ''/api/mr/7/files''\<rparr>,
         \<lparr>req_method = POST, url = ''/api/mr/7/merge''\<rparr>,
         \<lparr>req_method = GET, url = ''/api/mr/x9/files''\<rparr>]
   \<and> requests (step (Supply 3 (JObj [(''id'', JNum 7), (''status'', JStr ''open'')]))
        (run [Supply 3 (JObj [(''id'', JNum 7), (''status'', JStr ''open'')]), Click] init))
      = [\<lparr>req_method = GET, url = ''/api/mr/7/files''\<rparr>,
         \<lparr>req_method = POST, url = ''/api/mr/7/merge''\<rparr>]
   \<and> length (requests (run [Supply 3 (JObj [(''id'', JNum 7), (''status'', JStr ''open'')]),
                          Supply 5 (JObj [(''id'', JNum 7), (''status'', JStr ''open'')])] init)) = 2
   \<and> length (requests (run [Supply 3 (JObj [(''id'', JNum 7), (''status'', JStr ''open'')]),
                          Supply 3 (JObj [(''id'', JNum 7), (''status'', JStr ''open'')])] init)) = 1"
proof -
  let ?A = "JObj [(''id'', JNum 7), (''status'', JStr ''open'')]"
  let ?B = "JObj [(''id'', JStr ''x9''), (''status'', JStr ''merged'')]"
  let ?c = "run [Supply 3 ?A, Click] init"
  have h0: "crashed ?c = None" by code_simp
  have c0: "committed ?c = Some (3, ?A)" by code_simp
  have r0: "requests ?c = [\<lparr>req_method = GET, url = ''/api/mr/7/files''\<rparr>,
         \<lparr>req_method = POST, url = ''/api/mr/7/merge''\<rparr>]" by code_simp
  have h1: "get_prop ?A ''id'' = Inr (JNum 7)" by simp
  have h2: "truthy (JNum 7)" by simp
  have h3: "get_prop ?B ''id'' = Inr (JStr ''x9'')" by simp
  have h4: "truthy (JStr ''x9'')" by simp
  have o1: "\<not> Object_is (3, ?A) (5, ?B)" by (simp add: Object_is_def)
  have o2: "Object_is (3, ?A) (3, ?A)" by (simp add: Object_is_def)
  show ?thesis
    using refetch_by_object_identity [OF h0 h3 h4, of 5 5]
      refetch_by_object_identity [OF h0 h1 h2, of 3 5]
      refetch_by_object_identity [OF h0 h1 h2, of 3 3] h0
    by (simp add: c0 r0 o1 o2 del: run.simps)
qed

end
